theory Spec2Isabelle
  imports Main "HOL-Library.Sublist" "HOL-Library.Multiset"
begin

section \<open>Data model\<close>

text \<open>
  The dashboard keeps its data in plain JavaScript objects. A problem of the remote
  catalog carries \<open>contestId\<close>, \<open>index\<close>, \<open>name\<close>, an optional \<open>rating\<close>
  (\<open>None\<close> stands for \<open>undefined\<close>) and its \<open>tags\<close> array. Strings are modelled as
  \<open>string\<close>, one \<open>char\<close> per code unit, which covers the ASCII identifiers, verdicts
  and tag labels the remote service sends.
\<close>

record cf_problem =
  contestId :: int
  index :: string
  name :: string
  rating :: "int option"
  tags :: "string list"

text \<open>An entry of \<open>problemStatistics\<close>; only \<open>solvedCount\<close> is read.\<close>

record cf_statistics =
  solvedCount :: int

text \<open>
  The object built by \<open>{...problem, solvedCount: ...}\<close>: every property of the problem
  and one more field.
\<close>

record ladder_problem = cf_problem +
  solvedCount :: int

record cf_submission =
  problem :: cf_problem
  verdict :: string

datatype status = SOLVED | ATTEMPTED

type_synonym status_map = "string \<rightharpoonup> status"

subsection \<open>Template strings\<close>

text \<open>
  \<open>`${p.contestId}${p.index}`\<close> renders the number in decimal and appends the index.
  Contest ids are integers far below \<open>10^21\<close>, where JavaScript still prints every digit.
\<close>

definition digit_char :: "nat \<Rightarrow> char" where
  "digit_char d = ''0123456789'' ! d"

fun nat_to_string :: "nat \<Rightarrow> string" where
  "nat_to_string n =
     (if n < 10 then [digit_char n]
      else nat_to_string (n div 10) @ [digit_char (n mod 10)])"

declare nat_to_string.simps [simp del]

definition number_to_string :: "int \<Rightarrow> string" where
  "number_to_string i =
     (if i < 0 then CHR ''-'' # nat_to_string (nat (- i)) else nat_to_string (nat i))"

definition problemId :: "'a cf_problem_scheme \<Rightarrow> string" where
  "problemId p = number_to_string (contestId p) @ index p"

section \<open>Submission Reconciler\<close>

text \<open>
  \<open>fetchUserStatus\<close> of \<open>script.js\<close>, on a response whose status is \<open>OK\<close>: the
  map is cleared, the response array is reversed and walked with \<open>forEach\<close>; the
  callback is \<open>script_status_callback\<close>. The argument is \<open>data.result\<close>, newest
  submission first. One lookup is modelled at a time; overlapping lookups are not.
\<close>

definition script_status_callback :: "status_map \<Rightarrow> cf_submission \<Rightarrow> status_map" where
  "script_status_callback problemStatusMap sub =
     (let pid = problemId (problem sub) in
      if verdict sub = ''OK'' then problemStatusMap(pid \<mapsto> SOLVED)
      else (if problemStatusMap pid \<noteq> Some SOLVED
            then problemStatusMap(pid \<mapsto> ATTEMPTED)
            else problemStatusMap))"

definition script_fetchUserStatus :: "cf_submission list \<Rightarrow> status_map" where
  "script_fetchUserStatus result =
     (let submissions = rev result
      in foldl script_status_callback Map.empty submissions)"

text \<open>
  \<open>fetchUserStatus\<close> of the second file (\<open>part_000\<close>, prefix \<open>part0_\<close> here): a
  copy of the response array is reversed, and the callback is an \<open>if\<close> /
  \<open>else if\<close> chain.
\<close>

definition part0_status_callback :: "status_map \<Rightarrow> cf_submission \<Rightarrow> status_map" where
  "part0_status_callback problemStatusMap sub =
     (let pid = problemId (problem sub) in
      if verdict sub = ''OK'' then problemStatusMap(pid \<mapsto> SOLVED)
      else if problemStatusMap pid \<noteq> Some SOLVED
           then problemStatusMap(pid \<mapsto> ATTEMPTED)
           else problemStatusMap)"

definition part0_fetchUserStatus :: "cf_submission list \<Rightarrow> status_map" where
  "part0_fetchUserStatus userSubmissions =
     (let submissions = rev userSubmissions
      in foldl part0_status_callback Map.empty submissions)"

text \<open>
  The map after the first \<open>k\<close> callbacks of the walk (oldest submission first), for
  statements about intermediate steps.
\<close>

definition script_status_after :: "nat \<Rightarrow> cf_submission list \<Rightarrow> status_map" where
  "script_status_after k result = foldl script_status_callback Map.empty (take k (rev result))"

definition part0_status_after :: "nat \<Rightarrow> cf_submission list \<Rightarrow> status_map" where
  "part0_status_after k userSubmissions =
     foldl part0_status_callback Map.empty (take k (rev userSubmissions))"

section \<open>Problem Merger\<close>

text \<open>
  A row of the curated CSV, parsed with a header row; \<open>problem_links\<close> is the column
  that is read.
\<close>

record csv_row =
  problem_links :: string

text \<open>
  \<open>String.prototype.trim\<close> strips white space and line terminators at both ends; these
  are the ones that fit one \<open>char\<close>: tab, line feed, vertical tab, form feed, carriage
  return, space and no-break space.
\<close>

definition isWhiteSpace :: "char \<Rightarrow> bool" where
  "isWhiteSpace c =
     (c \<in> set [CHR 0x09, CHR 0x0A, CHR 0x0B, CHR 0x0C, CHR 0x0D, CHR 0x20, CHR 0xA0])"

definition js_trim :: "string \<Rightarrow> string" where
  "js_trim s = rev (dropWhile isWhiteSpace (rev (dropWhile isWhiteSpace s)))"

text \<open>
  Reading \<open>stats[index].solvedCount\<close> past the end of \<open>stats\<close> dereferences
  \<open>undefined\<close> and throws a \<open>TypeError\<close>.
\<close>

datatype js_error = TypeError

definition spread_with_solvedCount :: "cf_problem \<Rightarrow> int \<Rightarrow> ladder_problem" where
  "spread_with_solvedCount p c = cf_problem.extend p (ladder_problem.fields c)"

text \<open>
  \<open>problems.map((problem, index) => ({...problem, solvedCount: stats[index].solvedCount}))\<close>,
  with the running \<open>index\<close> made explicit.
\<close>

fun combine_from :: "nat \<Rightarrow> cf_problem list \<Rightarrow> cf_statistics list \<Rightarrow> js_error + ladder_problem list" where
  "combine_from i [] stats = Inr []"
| "combine_from i (p # ps) stats =
     (if i < length stats
      then (case combine_from (Suc i) ps stats of
              Inl e \<Rightarrow> Inl e
            | Inr rest \<Rightarrow>
                Inr (spread_with_solvedCount p (cf_statistics.solvedCount (stats ! i)) # rest))
      else Inl TypeError)"

text \<open>
  \<open>csvdata\<close> and \<open>fetchProblems\<close> in \<open>script.js\<close>, on a response whose status is
  \<open>OK\<close>; \<open>ladderProblems\<close> is the list the CSV load has stored by then.
\<close>

definition script_csvdata :: "csv_row list \<Rightarrow> string list" where
  "script_csvdata data = map (\<lambda>row. problem_links row) data"

definition script_fetchProblems ::
    "cf_problem list \<Rightarrow> cf_statistics list \<Rightarrow> string list \<Rightarrow> js_error + ladder_problem list" where
  "script_fetchProblems problems stats ladderProblems =
     (case combine_from 0 problems stats of
        Inl e \<Rightarrow> Inl e
      | Inr combinedData \<Rightarrow>
          (let allProblems = filter (\<lambda>p. rating p \<noteq> None) combinedData;
               ladderSet = set (map (\<lambda>s. js_trim s) ladderProblems);
               ladderMapped = filter (\<lambda>p. problemId p \<in> ladderSet) allProblems
           in Inr ladderMapped))"

text \<open>
  \<open>fetchCsvData\<close> and \<open>fetchProblems\<close> in the second file: the entries are trimmed
  when the CSV is read, and the set is built from them as they are.
\<close>

definition part0_fetchCsvData :: "csv_row list \<Rightarrow> string list" where
  "part0_fetchCsvData data = map (\<lambda>row. js_trim (problem_links row)) data"

definition part0_fetchProblems ::
    "cf_problem list \<Rightarrow> cf_statistics list \<Rightarrow> string list \<Rightarrow> js_error + ladder_problem list" where
  "part0_fetchProblems problems problemStatistics ladderProblems =
     (case combine_from 0 problems problemStatistics of
        Inl e \<Rightarrow> Inl e
      | Inr combinedData \<Rightarrow>
          (let allProblems = filter (\<lambda>p. rating p \<noteq> None) combinedData;
               ladderSet = set ladderProblems
           in Inr (filter (\<lambda>p. problemId p \<in> ladderSet) allProblems)))"

section \<open>Filter Engine\<close>

datatype tag_logic = OR | AND

record filter_state =
  selectedRating :: "int option"
  selectedTags :: "string list"
  tagLogic :: tag_logic
  cfHandle :: string

text \<open>
  \<open>if (x)\<close> on a number or \<open>null\<close> / \<open>undefined\<close>: absent values and \<open>0\<close> are falsy.
\<close>

definition truthy :: "int option \<Rightarrow> bool" where
  "truthy x = (case x of None \<Rightarrow> False | Some n \<Rightarrow> n \<noteq> 0)"

text \<open>
  \<open>applyFiltersAndRender\<close> of \<open>script.js\<close>. The result is the argument handed to
  \<open>renderProblemTable\<close>; \<open>None\<close> is the early return that leaves the table untouched.
  \<open>selectedTags\<close> is the \<open>Set\<close> in insertion order.
\<close>

definition script_applyFiltersAndRender ::
    "ladder_problem list \<Rightarrow> filter_state \<Rightarrow> ladder_problem list option" where
  "script_applyFiltersAndRender allProblems state =
     (if length allProblems = 0 then None
      else
        (let filtered = allProblems in
         if truthy (selectedRating state)
         then
           (let filtered = filter (\<lambda>p. rating p = selectedRating state) filtered;
                filtered =
                  (if length (selectedTags state) > 0
                   then filter (\<lambda>p.
                          (let problemTags = set (tags p) in
                           if tagLogic state = OR
                           then list_ex (\<lambda>tag. tag \<in> problemTags) (selectedTags state)
                           else list_all (\<lambda>tag. tag \<in> problemTags) (selectedTags state)))
                        filtered
                   else filtered)
            in Some filtered)
         else Some []))"

text \<open>\<open>applyFiltersAndRender\<close> of the second file.\<close>

definition part0_applyFiltersAndRender ::
    "ladder_problem list \<Rightarrow> filter_state \<Rightarrow> ladder_problem list option" where
  "part0_applyFiltersAndRender allProblems state =
     (if length allProblems = 0 then None
      else
        (let filtered = allProblems in
         if truthy (selectedRating state)
         then
           (let filtered = filter (\<lambda>p. rating p = selectedRating state) filtered;
                filtered =
                  (if length (selectedTags state) > 0
                   then filter (\<lambda>p.
                          (let problemTags = set (tags p) in
                           if tagLogic state = OR
                           then list_ex (\<lambda>tag. tag \<in> problemTags) (selectedTags state)
                           else list_all (\<lambda>tag. tag \<in> problemTags) (selectedTags state)))
                        filtered
                   else filtered)
            in Some filtered)
         else Some []))"

text \<open>The rows a call puts on screen: none when it returns before rendering.\<close>

definition rendered_rows :: "ladder_problem list option \<Rightarrow> ladder_problem list" where
  "rendered_rows r = (case r of None \<Rightarrow> [] | Some rows \<Rightarrow> rows)"

text \<open>The rating stage keeps \<open>p\<close>: the selection is truthy and equals the rating.\<close>

definition passes_rating_filter :: "filter_state \<Rightarrow> ladder_problem \<Rightarrow> bool" where
  "passes_rating_filter state p = (truthy (selectedRating state) \<and> rating p = selectedRating state)"

section \<open>Analytics Aggregator\<close>

text \<open>
  \<open>generateAnalytics\<close> exists in the second file only. \<open>solvedProblems\<close> is a \<open>Map\<close>,
  kept here as its entries in insertion order.
\<close>

definition solved_callback :: "(string \<times> cf_problem) list \<Rightarrow> cf_submission \<Rightarrow> (string \<times> cf_problem) list" where
  "solved_callback solvedProblems sub =
     (if verdict sub = ''OK''
      then (let pid = problemId (problem sub) in
            if pid \<notin> set (map fst solvedProblems)
            then solvedProblems @ [(pid, problem sub)]
            else solvedProblems)
      else solvedProblems)"

definition part0_solvedProblems :: "cf_submission list \<Rightarrow> (string \<times> cf_problem) list" where
  "part0_solvedProblems submissions = foldl solved_callback [] submissions"

definition or_zero :: "nat option \<Rightarrow> nat" where
  "or_zero c = (case c of None \<Rightarrow> 0 | Some n \<Rightarrow> n)"

text \<open>
  \<open>tagCounts\<close> is a plain object created by \<open>{}\<close>, so a read of a key it does not own
  falls through to \<open>Object.prototype\<close>. For the eleven function-valued properties
  found there the read yields a function, which is truthy; adding \<open>1\<close> to it gives a
  string, the function's source text followed by \<open>1\<close>, and the assignment stores that
  string as an own property, to which every later increment appends another \<open>1\<close>.
  \<open>Text k\<close> stands for such a string with \<open>k\<close> appended digits. For \<open>__proto__\<close>
  the read yields the prototype object and the assignment is swallowed by the
  inherited setter, which ignores a string, so no own property ever appears. Every
  other key is an ordinary counter, \<open>Number n\<close>.
\<close>

definition inherited_function_names :: "string list" where
  "inherited_function_names =
     [''constructor'', ''__defineGetter__'', ''__defineSetter__'', ''hasOwnProperty'',
      ''__lookupGetter__'', ''__lookupSetter__'', ''isPrototypeOf'',
      ''propertyIsEnumerable'', ''toString'', ''valueOf'', ''toLocaleString'']"

datatype js_count = Number nat | Text nat

definition tag_callback :: "(string \<rightharpoonup> js_count) \<Rightarrow> string \<Rightarrow> (string \<rightharpoonup> js_count)" where
  "tag_callback tagCounts tag =
     (case tagCounts tag of
        Some (Number n) \<Rightarrow> tagCounts(tag \<mapsto> Number (n + 1))
      | Some (Text k) \<Rightarrow> tagCounts(tag \<mapsto> Text (k + 1))
      | None \<Rightarrow>
          if tag = ''__proto__'' then tagCounts
          else if tag \<in> set inherited_function_names then tagCounts(tag \<mapsto> Text 1)
          else tagCounts(tag \<mapsto> Number 1))"

definition part0_tagCounts :: "(string \<times> cf_problem) list \<Rightarrow> (string \<rightharpoonup> js_count)" where
  "part0_tagCounts solvedProblems =
     foldl (\<lambda>tagCounts (pid, p). foldl tag_callback tagCounts (tags p)) Map.empty solvedProblems"

text \<open>
  The own property an initially empty counter object holds under \<open>key\<close> after \<open>n\<close>
  increments of that key.
\<close>

definition own_count :: "string \<Rightarrow> nat \<Rightarrow> js_count option" where
  "own_count key n =
     (if n = 0 \<or> key = ''__proto__'' then None
      else if key \<in> set inherited_function_names then Some (Text n)
      else Some (Number n))"

text \<open>
  \<open>ratingCounts\<close> is a plain object too, but its keys are decimal renderings of
  numbers, which name no inherited property and are one-to-one on integers; the key
  is kept as the integer. \<open>if (problem.rating)\<close> is a truthiness test.
\<close>

definition rating_callback :: "(int \<rightharpoonup> nat) \<Rightarrow> cf_problem \<Rightarrow> (int \<rightharpoonup> nat)" where
  "rating_callback ratingCounts p =
     (if truthy (rating p)
      then (case rating p of
              Some r \<Rightarrow> ratingCounts(r \<mapsto> or_zero (ratingCounts r) + 1)
            | None \<Rightarrow> ratingCounts)
      else ratingCounts)"

definition part0_ratingCounts :: "(string \<times> cf_problem) list \<Rightarrow> (int \<rightharpoonup> nat)" where
  "part0_ratingCounts solvedProblems =
     foldl (\<lambda>ratingCounts (pid, p). rating_callback ratingCounts p) Map.empty solvedProblems"

datatype analytics_view =
    NoDataMessage string
  | Charts "string \<rightharpoonup> js_count" "int \<rightharpoonup> nat"

definition part0_generateAnalytics :: "cf_submission list \<Rightarrow> analytics_view" where
  "part0_generateAnalytics submissions =
     (let solvedProblems = part0_solvedProblems submissions in
      if length solvedProblems = 0
      then NoDataMessage ''No problems solved yet. Solve some problems to see your stats!''
      else Charts (part0_tagCounts solvedProblems) (part0_ratingCounts solvedProblems))"

section \<open>Example data\<close>

text \<open>
  Two catalog problems and the submission list \<open>[{P1,WA},{P1,OK},{P2,WA}]\<close>, newest
  first, used to run the definitions on concrete inputs.
\<close>

definition P1 :: cf_problem where
  "P1 = \<lparr>contestId = 1, index = ''A'', name = ''Theatre Square'', rating = Some 1200, tags = [''math'']\<rparr>"

definition P2 :: cf_problem where
  "P2 = \<lparr>contestId = 2, index = ''B'', name = ''The least round way'', rating = Some 2000, tags = [''dp'', ''math'']\<rparr>"

definition unrated_B :: cf_problem where
  "unrated_B = \<lparr>contestId = 2, index = ''B'', name = ''Unrated'', rating = None, tags = [''dp'']\<rparr>"

definition example_statistics :: "cf_statistics list" where
  "example_statistics = [\<lparr>cf_statistics.solvedCount = 250000\<rparr>, \<lparr>cf_statistics.solvedCount = 9000\<rparr>]"

definition example_rows :: "csv_row list" where
  "example_rows = [\<lparr>problem_links = '' 1A ''\<rparr>]"

definition dp_record :: ladder_problem where
  "dp_record = \<lparr>contestId = 4, index = ''A'', name = ''Watermelon'', rating = Some 800,
                 tags = [''dp''], solvedCount = 500000\<rparr>"

definition or_state :: filter_state where
  "or_state = \<lparr>selectedRating = Some 800, selectedTags = [''dp'', ''math''], tagLogic = OR,
                cfHandle = ''tourist''\<rparr>"

definition and_state :: filter_state where
  "and_state = or_state\<lparr>tagLogic := AND\<rparr>"

definition unset_state :: filter_state where
  "unset_state = or_state\<lparr>selectedRating := None\<rparr>"

definition zero_rated :: cf_problem where
  "zero_rated = \<lparr>contestId = 5, index = ''A'', name = ''Rated zero'', rating = Some 0,
                  tags = [''math'']\<rparr>"

definition zero_example :: "cf_submission list" where
  "zero_example = [\<lparr>problem = zero_rated, verdict = ''OK''\<rparr>]"

definition analytics_example :: "cf_submission list" where
  "analytics_example =
     [\<lparr>problem = P1, verdict = ''OK''\<rparr>,
      \<lparr>problem = P2, verdict = ''WRONG_ANSWER''\<rparr>,
      \<lparr>problem = P2, verdict = ''OK''\<rparr>,
      \<lparr>problem = P1, verdict = ''OK''\<rparr>]"

definition unsolved_example :: "cf_submission list" where
  "unsolved_example = [\<lparr>problem = P2, verdict = ''WRONG_ANSWER''\<rparr>]"

definition odd_tags :: cf_problem where
  "odd_tags = \<lparr>contestId = 6, index = ''C'', name = ''Odd tags'', rating = Some 900,
                tags = [''constructor'', ''__proto__'', ''math'', ''constructor'']\<rparr>"

definition wire_example :: "cf_submission list" where
  "wire_example =
     [\<lparr>problem = P1, verdict = ''WRONG_ANSWER''\<rparr>,
      \<lparr>problem = P1, verdict = ''OK''\<rparr>,
      \<lparr>problem = P2, verdict = ''WRONG_ANSWER''\<rparr>]"

section \<open>Properties of the Submission Reconciler\<close>

lemma status_callback_agree: "part0_status_callback = script_status_callback"
  by (intro ext) (simp add: part0_status_callback_def script_status_callback_def)

lemma status_callback_apply:
  "script_status_callback m s pid =
     (if problemId (problem s) = pid
      then (if verdict s = ''OK'' \<or> m pid = Some SOLVED then Some SOLVED else Some ATTEMPTED)
      else m pid)"
  by (simp add: script_status_callback_def Let_def)

lemma foldl_status_callback:
  "foldl script_status_callback m xs pid =
     (if \<exists>s\<in>set xs. problemId (problem s) = pid \<and> verdict s = ''OK'' then Some SOLVED
      else if \<exists>s\<in>set xs. problemId (problem s) = pid
           then (if m pid = Some SOLVED then Some SOLVED else Some ATTEMPTED)
      else m pid)"
proof (induction xs rule: rev_induct)
  case Nil
  then show ?case by simp
next
  case (snoc x xs)
  have "foldl script_status_callback m (xs @ [x]) pid =
        script_status_callback (foldl script_status_callback m xs) x pid"
    by simp
  also have "\<dots> =
      (if problemId (problem x) = pid
       then (if verdict x = ''OK'' \<or> foldl script_status_callback m xs pid = Some SOLVED
             then Some SOLVED else Some ATTEMPTED)
       else foldl script_status_callback m xs pid)"
    by (rule status_callback_apply)
  finally show ?case
    by (simp only: snoc.IH) auto
qed

lemma foldl_status_solved_stays:
  "m pid = Some SOLVED \<Longrightarrow> foldl script_status_callback m xs pid = Some SOLVED"
  by (simp add: foldl_status_callback)

lemma status_after_mono:
  assumes "i \<le> j" and "script_status_after i subs pid = Some SOLVED"
  shows "script_status_after j subs pid = Some SOLVED"
proof -
  obtain d where j: "j = i + d" using assms(1) by (auto simp: le_iff_add)
  have "take j (rev subs) = take i (rev subs) @ take d (drop i (rev subs))"
    unfolding j by (simp add: take_add)
  then show ?thesis
    using assms(2) by (simp add: script_status_after_def foldl_status_solved_stays)
qed


lemma fetchUserStatus_agree: "part0_fetchUserStatus = script_fetchUserStatus"
  by (intro ext) (simp add: part0_fetchUserStatus_def script_fetchUserStatus_def status_callback_agree)

lemma status_after_agree: "part0_status_after = script_status_after"
  by (intro ext) (simp add: part0_status_after_def script_status_after_def status_callback_agree)

lemma fetchUserStatus_apply:
  "script_fetchUserStatus subs pid =
     (if \<exists>s\<in>set subs. problemId (problem s) = pid \<and> verdict s = ''OK'' then Some SOLVED
      else if \<exists>s\<in>set subs. problemId (problem s) = pid then Some ATTEMPTED
      else None)"
  by (simp add: script_fetchUserStatus_def foldl_status_callback)

lemma fetchUserStatus_Cons:
  "script_fetchUserStatus (newest # older) =
     script_status_callback (script_fetchUserStatus older) newest"
  by (simp add: script_fetchUserStatus_def)

lemma problemId_P1: "problemId P1 = ''1A''"
  by (simp add: P1_def problemId_def number_to_string_def nat_to_string.simps digit_char_def)

lemma problemId_P2: "problemId P2 = ''2B''"
  by (simp add: P2_def problemId_def number_to_string_def nat_to_string.simps digit_char_def)

text \<open>
  Claim C1. The submission list arrives newest first and is walked oldest first: the
  map built from a list with one more (newer) head is the map of the older tail with
  the callback applied to the head last. The callback stores \<open>SOLVED\<close> under the
  identity (\<open>contestId\<close> followed by \<open>index\<close>) when the verdict is \<open>OK\<close>, and
  otherwise stores \<open>ATTEMPTED\<close> unless the identity already maps to \<open>SOLVED\<close>. Both
  files do so. For \<open>[{P1,WA},{P1,OK},{P2,WA}]\<close>, with two distinct identities and any
  verdict other than \<open>OK\<close> for \<open>WA\<close>, the map is exactly \<open>{P1: SOLVED, P2: ATTEMPTED}\<close>.
\<close>

theorem fetchUserStatus_oldest_first:
  assumes "problemId pa \<noteq> problemId pb" and "wa \<noteq> ''OK''"
  shows "script_fetchUserStatus [] = Map.empty
       \<and> script_fetchUserStatus (newest # older) =
           (let m = script_fetchUserStatus older; pid = problemId (problem newest)
            in if verdict newest = ''OK'' then m(pid \<mapsto> SOLVED)
               else if m pid = Some SOLVED then m else m(pid \<mapsto> ATTEMPTED))
       \<and> part0_fetchUserStatus [] = Map.empty
       \<and> part0_fetchUserStatus (newest # older) =
           (let m = part0_fetchUserStatus older; pid = problemId (problem newest)
            in if verdict newest = ''OK'' then m(pid \<mapsto> SOLVED)
               else if m pid = Some SOLVED then m else m(pid \<mapsto> ATTEMPTED))
       \<and> script_fetchUserStatus
            [\<lparr>problem = pa, verdict = wa\<rparr>, \<lparr>problem = pa, verdict = ''OK''\<rparr>,
             \<lparr>problem = pb, verdict = wa\<rparr>]
           = [problemId pa \<mapsto> SOLVED, problemId pb \<mapsto> ATTEMPTED]
       \<and> part0_fetchUserStatus
            [\<lparr>problem = pa, verdict = wa\<rparr>, \<lparr>problem = pa, verdict = ''OK''\<rparr>,
             \<lparr>problem = pb, verdict = wa\<rparr>]
           = [problemId pa \<mapsto> SOLVED, problemId pb \<mapsto> ATTEMPTED]"
proof -
  have nil: "script_fetchUserStatus [] = Map.empty"
    by (simp add: script_fetchUserStatus_def)
  have cons: "script_fetchUserStatus (newest # older) =
           (let m = script_fetchUserStatus older; pid = problemId (problem newest)
            in if verdict newest = ''OK'' then m(pid \<mapsto> SOLVED)
               else if m pid = Some SOLVED then m else m(pid \<mapsto> ATTEMPTED))"
    unfolding fetchUserStatus_Cons by (simp add: script_status_callback_def Let_def)
  have ex: "script_fetchUserStatus
            [\<lparr>problem = pa, verdict = wa\<rparr>, \<lparr>problem = pa, verdict = ''OK''\<rparr>,
             \<lparr>problem = pb, verdict = wa\<rparr>]
           = [problemId pa \<mapsto> SOLVED, problemId pb \<mapsto> ATTEMPTED]"
    using assms by (intro ext) (simp add: fetchUserStatus_apply)
  show ?thesis
    unfolding fetchUserStatus_agree using nil cons ex by blast
qed

theorem fetchUserStatus_oldest_first_witness:
  "problemId P1 \<noteq> problemId P2 \<and> ''WRONG_ANSWER'' \<noteq> ''OK''
   \<and> script_fetchUserStatus wire_example = [''1A'' \<mapsto> SOLVED, ''2B'' \<mapsto> ATTEMPTED]
   \<and> part0_fetchUserStatus wire_example = [''1A'' \<mapsto> SOLVED, ''2B'' \<mapsto> ATTEMPTED]"
proof -
  have ids: "problemId P1 \<noteq> problemId P2"
    by (simp add: problemId_P1 problemId_P2)
  have wa: "''WRONG_ANSWER'' \<noteq> ''OK''"
    by simp
  note rule = fetchUserStatus_oldest_first [OF ids wa,
      where newest = "\<lparr>problem = P2, verdict = ''OK''\<rparr>" and older = "[]"]
  show ?thesis
    using ids wa rule unfolding wire_example_def problemId_P1 problemId_P2 by blast
qed

text \<open>
  Claim C2. \<open>SOLVED\<close> is monotone within one walk: if an identity maps to \<open>SOLVED\<close>
  after \<open>i\<close> callbacks, it still maps to \<open>SOLVED\<close> (so never to \<open>ATTEMPTED\<close>) after any
  later number \<open>j\<close> of callbacks, in both files; the map after all callbacks is the
  final status map.
\<close>

theorem solved_never_downgraded:
  assumes "i \<le> j"
  shows "(script_status_after i subs pid = Some SOLVED \<longrightarrow>
            script_status_after j subs pid = Some SOLVED)
       \<and> (part0_status_after i subs pid = Some SOLVED \<longrightarrow>
            part0_status_after j subs pid = Some SOLVED)
       \<and> script_status_after (length subs) subs = script_fetchUserStatus subs
       \<and> part0_status_after (length subs) subs = part0_fetchUserStatus subs"
proof -
  have "script_status_after (length subs) subs = script_fetchUserStatus subs"
    by (simp add: script_status_after_def script_fetchUserStatus_def)
  then show ?thesis
    unfolding status_after_agree fetchUserStatus_agree
    using status_after_mono [OF assms] by blast
qed

theorem solved_never_downgraded_witness:
  "(2::nat) \<le> 3
   \<and> script_status_after 2 wire_example ''1A'' = Some SOLVED
   \<and> script_status_after 3 wire_example ''1A'' = Some SOLVED
   \<and> part0_status_after 2 wire_example ''1A'' = Some SOLVED
   \<and> part0_status_after 3 wire_example ''1A'' = Some SOLVED"
proof -
  have a: "script_status_after 2 wire_example ''1A'' = Some SOLVED"
    by (simp add: script_status_after_def wire_example_def script_status_callback_def
        problemId_P1 problemId_P2)
  have b: "part0_status_after 2 wire_example ''1A'' = Some SOLVED"
    by (simp add: part0_status_after_def wire_example_def part0_status_callback_def
        problemId_P1 problemId_P2)
  show ?thesis
    using solved_never_downgraded [of 2 3 wire_example "''1A''"] a b by simp
qed

text \<open>
  Claim C9. The final status map does not depend on the order of the submissions: a
  permutation of the list gives the same map, because an identity maps to \<open>SOLVED\<close>
  exactly when some submission for it has verdict \<open>OK\<close>, and to \<open>ATTEMPTED\<close> exactly
  when there is a submission for it and none with verdict \<open>OK\<close>. In particular the
  walk without the reversal ends in the same map as the walk with it.
\<close>

theorem fetchUserStatus_order_irrelevant:
  assumes "mset subs' = mset subs"
  shows "script_fetchUserStatus subs' = script_fetchUserStatus subs
       \<and> part0_fetchUserStatus subs' = part0_fetchUserStatus subs
       \<and> (script_fetchUserStatus subs pid = Some SOLVED \<longleftrightarrow>
            (\<exists>s\<in>set subs. problemId (problem s) = pid \<and> verdict s = ''OK''))
       \<and> (script_fetchUserStatus subs pid = Some ATTEMPTED \<longleftrightarrow>
            (\<exists>s\<in>set subs. problemId (problem s) = pid) \<and>
            \<not> (\<exists>s\<in>set subs. problemId (problem s) = pid \<and> verdict s = ''OK''))
       \<and> (part0_fetchUserStatus subs pid = Some SOLVED \<longleftrightarrow>
            (\<exists>s\<in>set subs. problemId (problem s) = pid \<and> verdict s = ''OK''))
       \<and> (part0_fetchUserStatus subs pid = Some ATTEMPTED \<longleftrightarrow>
            (\<exists>s\<in>set subs. problemId (problem s) = pid) \<and>
            \<not> (\<exists>s\<in>set subs. problemId (problem s) = pid \<and> verdict s = ''OK''))
       \<and> foldl script_status_callback Map.empty subs = script_fetchUserStatus subs
       \<and> foldl part0_status_callback Map.empty subs = part0_fetchUserStatus subs"
proof -
  have "set subs' = set subs"
    using assms by (rule mset_eq_setD)
  then have perm: "script_fetchUserStatus subs' = script_fetchUserStatus subs"
    by (intro ext) (simp add: fetchUserStatus_apply)
  have solved: "script_fetchUserStatus subs pid = Some SOLVED \<longleftrightarrow>
            (\<exists>s\<in>set subs. problemId (problem s) = pid \<and> verdict s = ''OK'')"
    by (simp add: fetchUserStatus_apply)
  have attempted: "script_fetchUserStatus subs pid = Some ATTEMPTED \<longleftrightarrow>
            (\<exists>s\<in>set subs. problemId (problem s) = pid) \<and>
            \<not> (\<exists>s\<in>set subs. problemId (problem s) = pid \<and> verdict s = ''OK'')"
    by (simp add: fetchUserStatus_apply)
  have norev: "foldl script_status_callback Map.empty subs = script_fetchUserStatus subs"
    by (intro ext) (simp add: fetchUserStatus_apply foldl_status_callback)
  show ?thesis
    unfolding fetchUserStatus_agree status_callback_agree
    using perm solved attempted norev by blast
qed

theorem fetchUserStatus_order_irrelevant_witness:
  "mset (rev wire_example) = mset wire_example
   \<and> script_fetchUserStatus (rev wire_example) = script_fetchUserStatus wire_example
   \<and> part0_fetchUserStatus (rev wire_example) = part0_fetchUserStatus wire_example
   \<and> script_fetchUserStatus wire_example ''1A'' = Some SOLVED
   \<and> script_fetchUserStatus wire_example ''2B'' = Some ATTEMPTED"
proof -
  have "script_fetchUserStatus wire_example ''1A'' = Some SOLVED"
    by (simp add: fetchUserStatus_apply wire_example_def problemId_P1 problemId_P2)
  moreover have "script_fetchUserStatus wire_example ''2B'' = Some ATTEMPTED"
    by (simp add: fetchUserStatus_apply wire_example_def problemId_P1 problemId_P2)
  ultimately show ?thesis
    using fetchUserStatus_order_irrelevant [of "rev wire_example" wire_example] by simp
qed


section \<open>Properties of the Problem Merger\<close>

lemma spread_fields [simp]:
  "rating (spread_with_solvedCount p c) = rating p"
  "contestId (spread_with_solvedCount p c) = contestId p"
  "index (spread_with_solvedCount p c) = index p"
  "tags (spread_with_solvedCount p c) = tags p"
  "name (spread_with_solvedCount p c) = name p"
  "ladder_problem.solvedCount (spread_with_solvedCount p c) = c"
  "cf_problem.truncate (spread_with_solvedCount p c) = p"
  by (simp_all add: spread_with_solvedCount_def cf_problem.defs ladder_problem.defs)

lemma problemId_spread [simp]: "problemId (spread_with_solvedCount p c) = problemId p"
  by (simp add: problemId_def)

lemma combine_from_aligned:
  "i + length ps \<le> length stats \<Longrightarrow>
   combine_from i ps stats =
     Inr (map (\<lambda>k. spread_with_solvedCount (ps ! k) (cf_statistics.solvedCount (stats ! (i + k))))
            [0..<length ps])"
proof (induction ps arbitrary: i)
  case Nil
  then show ?case by simp
next
  case (Cons p ps)
  have "Suc i + length ps \<le> length stats" using Cons.prems by simp
  note IH = Cons.IH [OF this]
  have lt: "i < length stats" using Cons.prems by simp
  have upt: "[0..<length (p # ps)] = 0 # map Suc [0..<length ps]"
    by (simp add: upt_conv_Cons map_Suc_upt del: upt_Suc)
  show ?case
    unfolding upt by (simp add: IH lt comp_def)
qed

lemma script_fetchProblems_aligned:
  assumes "length stats = length problems"
  shows "script_fetchProblems problems stats ladderProblems =
     Inr (map (\<lambda>i. spread_with_solvedCount (problems ! i) (cf_statistics.solvedCount (stats ! i)))
            (filter (\<lambda>i. rating (problems ! i) \<noteq> None \<and>
                          problemId (problems ! i) \<in> js_trim ` set ladderProblems)
               [0..<length problems]))"
  using assms
  by (simp add: script_fetchProblems_def combine_from_aligned filter_map comp_def)

lemma part0_fetchProblems_aligned:
  assumes "length stats = length problems"
  shows "part0_fetchProblems problems stats ladderProblems =
     Inr (map (\<lambda>i. spread_with_solvedCount (problems ! i) (cf_statistics.solvedCount (stats ! i)))
            (filter (\<lambda>i. rating (problems ! i) \<noteq> None \<and>
                          problemId (problems ! i) \<in> set ladderProblems)
               [0..<length problems]))"
  using assms
  by (simp add: part0_fetchProblems_def combine_from_aligned filter_map comp_def)


lemma spread_with_solvedCount_record:
  "spread_with_solvedCount p c =
     \<lparr>contestId = contestId p, index = index p, name = name p, rating = rating p,
      tags = tags p, solvedCount = c\<rparr>"
  by (cases p) (simp add: spread_with_solvedCount_def cf_problem.defs ladder_problem.defs)

text \<open>
  Claim C3. For index-aligned arrays \<open>problems\<close> and \<open>problemStatistics\<close>, the merger
  returns, in catalog order, exactly the records at those positions \<open>i\<close> where
  \<open>problems[i]\<close> has a defined rating and its identity (\<open>contestId\<close> followed by
  \<open>index\<close>) is one of the trimmed entries of the curated list; each record has the
  five properties of \<open>problems[i]\<close> and a \<open>solvedCount\<close> field equal to the
  \<open>solvedCount\<close> of \<open>problemStatistics[i]\<close>. Both files agree on this, one trimming
  when the set is built and the other when the CSV is read. For \<open>[a, b]\<close> with \<open>a\<close>
  rated 1200, \<open>b\<close> unrated and the allow-set holding just the identity of \<open>a\<close>, the
  output is the single record of \<open>a\<close>, with the \<open>solvedCount\<close> of the first
  statistics entry.
\<close>

theorem fetchProblems_rated_and_curated:
  assumes "length problemStatistics = length problems"
  shows "script_fetchProblems problems problemStatistics (script_csvdata rows) =
           Inr (map (\<lambda>i. \<lparr>contestId = contestId (problems ! i), index = index (problems ! i),
                            name = name (problems ! i), rating = rating (problems ! i),
                            tags = tags (problems ! i),
                            solvedCount = cf_statistics.solvedCount (problemStatistics ! i)\<rparr>)
                  (filter (\<lambda>i. rating (problems ! i) \<noteq> None \<and>
                                problemId (problems ! i) \<in> js_trim ` problem_links ` set rows)
                     [0..<length problems]))
       \<and> part0_fetchProblems problems problemStatistics (part0_fetchCsvData rows) =
           Inr (map (\<lambda>i. \<lparr>contestId = contestId (problems ! i), index = index (problems ! i),
                            name = name (problems ! i), rating = rating (problems ! i),
                            tags = tags (problems ! i),
                            solvedCount = cf_statistics.solvedCount (problemStatistics ! i)\<rparr>)
                  (filter (\<lambda>i. rating (problems ! i) \<noteq> None \<and>
                                problemId (problems ! i) \<in> js_trim ` problem_links ` set rows)
                     [0..<length problems]))
       \<and> (rating a = Some 1200 \<and> rating b = None \<and>
            js_trim ` problem_links ` set rows = {problemId a} \<longrightarrow>
            script_fetchProblems [a, b] [sa, sb] (script_csvdata rows) =
              Inr [\<lparr>contestId = contestId a, index = index a, name = name a,
                 rating = rating a, tags = tags a, solvedCount = cf_statistics.solvedCount sa\<rparr>] \<and>
            part0_fetchProblems [a, b] [sa, sb] (part0_fetchCsvData rows) =
              Inr [\<lparr>contestId = contestId a, index = index a, name = name a,
                 rating = rating a, tags = tags a, solvedCount = cf_statistics.solvedCount sa\<rparr>])"
proof -
  have s: "set (script_csvdata rows) = problem_links ` set rows"
    by (simp add: script_csvdata_def)
  have p: "set (part0_fetchCsvData rows) = js_trim ` problem_links ` set rows"
    by (simp add: part0_fetchCsvData_def image_image)
  have general_script: "script_fetchProblems problems problemStatistics (script_csvdata rows) =
           Inr (map (\<lambda>i. \<lparr>contestId = contestId (problems ! i), index = index (problems ! i),
                            name = name (problems ! i), rating = rating (problems ! i),
                            tags = tags (problems ! i),
                            solvedCount = cf_statistics.solvedCount (problemStatistics ! i)\<rparr>)
                  (filter (\<lambda>i. rating (problems ! i) \<noteq> None \<and>
                                problemId (problems ! i) \<in> js_trim ` problem_links ` set rows)
                     [0..<length problems]))"
    using assms
    by (simp add: script_fetchProblems_aligned s spread_with_solvedCount_record)
  have general_part0: "part0_fetchProblems problems problemStatistics (part0_fetchCsvData rows) =
           Inr (map (\<lambda>i. \<lparr>contestId = contestId (problems ! i), index = index (problems ! i),
                            name = name (problems ! i), rating = rating (problems ! i),
                            tags = tags (problems ! i),
                            solvedCount = cf_statistics.solvedCount (problemStatistics ! i)\<rparr>)
                  (filter (\<lambda>i. rating (problems ! i) \<noteq> None \<and>
                                problemId (problems ! i) \<in> js_trim ` problem_links ` set rows)
                     [0..<length problems]))"
    using assms
    by (simp add: part0_fetchProblems_aligned p spread_with_solvedCount_record)
  have example: "script_fetchProblems [a, b] [sa, sb] (script_csvdata rows) =
              Inr [\<lparr>contestId = contestId a, index = index a, name = name a,
                 rating = rating a, tags = tags a, solvedCount = cf_statistics.solvedCount sa\<rparr>] \<and>
            part0_fetchProblems [a, b] [sa, sb] (part0_fetchCsvData rows) =
              Inr [\<lparr>contestId = contestId a, index = index a, name = name a,
                 rating = rating a, tags = tags a, solvedCount = cf_statistics.solvedCount sa\<rparr>]"
    if "rating a = Some 1200" "rating b = None"
       "js_trim ` problem_links ` set rows = {problemId a}"
    using that
    by (simp add: script_fetchProblems_def part0_fetchProblems_def s p
        spread_with_solvedCount_record [symmetric])
  show ?thesis
    using general_script general_part0 example by blast
qed

theorem fetchProblems_rated_and_curated_witness:
  "length example_statistics = length [P1, unrated_B]
   \<and> script_fetchProblems [P1, unrated_B] example_statistics (script_csvdata example_rows) =
       Inr [\<lparr>contestId = 1, index = ''A'', name = ''Theatre Square'', rating = Some 1200,
             tags = [''math''], solvedCount = 250000\<rparr>]
   \<and> part0_fetchProblems [P1, unrated_B] example_statistics (part0_fetchCsvData example_rows) =
       Inr [\<lparr>contestId = 1, index = ''A'', name = ''Theatre Square'', rating = Some 1200,
             tags = [''math''], solvedCount = 250000\<rparr>]"
proof -
  have len: "length example_statistics = length [P1, unrated_B]"
    by (simp add: example_statistics_def)
  have trim: "js_trim '' 1A '' = ''1A''"
    by (simp add: js_trim_def isWhiteSpace_def)
  have allow: "js_trim ` problem_links ` set example_rows = {problemId P1}"
    by (simp add: example_rows_def trim problemId_P1)
  have r: "rating P1 = Some 1200 \<and> rating unrated_B = None"
    by (simp add: P1_def unrated_B_def)
  have fields: "contestId P1 = 1" "index P1 = ''A''" "name P1 = ''Theatre Square''"
      "tags P1 = [''math'']"
    by (simp_all add: P1_def)
  show ?thesis
    using fetchProblems_rated_and_curated [OF len, where rows = example_rows and a = P1
        and b = unrated_B and sa = "\<lparr>cf_statistics.solvedCount = 250000\<rparr>"
        and sb = "\<lparr>cf_statistics.solvedCount = 9000\<rparr>"]
      len allow r fields
    by (simp add: example_statistics_def)
qed

section \<open>Properties of the Filter Engine\<close>

lemma applyFiltersAndRender_agree: "part0_applyFiltersAndRender = script_applyFiltersAndRender"
  by (intro ext) (simp add: part0_applyFiltersAndRender_def script_applyFiltersAndRender_def)

lemma applyFiltersAndRender_unset:
  "\<not> truthy (selectedRating state) \<Longrightarrow>
   script_applyFiltersAndRender allProblems state = (if allProblems = [] then None else Some [])"
  by (simp add: script_applyFiltersAndRender_def)

lemma applyFiltersAndRender_selected:
  "truthy (selectedRating state) \<Longrightarrow> allProblems \<noteq> [] \<Longrightarrow>
   script_applyFiltersAndRender allProblems state =
     Some (filter (\<lambda>p. rating p = selectedRating state \<and>
                        (selectedTags state = [] \<or>
                         (if tagLogic state = OR
                          then \<exists>tag\<in>set (selectedTags state). tag \<in> set (tags p)
                          else \<forall>tag\<in>set (selectedTags state). tag \<in> set (tags p))))
             allProblems)"
  by (auto simp add: script_applyFiltersAndRender_def Let_def list_ex_iff list_all_iff
      intro!: filter_cong)


lemma truthy_None [simp]: "\<not> truthy None"
  by (simp add: truthy_def)

text \<open>
  Claim C4. With no rating selected, the Filter Engine puts no rows on screen,
  whatever the catalog, the selected tags and the tag logic are: on a non-empty
  catalog it renders the empty sequence, and on an empty catalog it returns before
  rendering anything. Both files behave so.
\<close>

theorem no_rating_no_rows:
  assumes "selectedRating state = None"
  shows "rendered_rows (script_applyFiltersAndRender allProblems state) = []
       \<and> rendered_rows (part0_applyFiltersAndRender allProblems state) = []
       \<and> script_applyFiltersAndRender allProblems state =
           (if allProblems = [] then None else Some [])
       \<and> part0_applyFiltersAndRender allProblems state =
           (if allProblems = [] then None else Some [])"
  unfolding applyFiltersAndRender_agree
  using assms by (simp add: applyFiltersAndRender_unset rendered_rows_def)

theorem no_rating_no_rows_witness:
  "selectedRating unset_state = None
   \<and> script_applyFiltersAndRender [dp_record] unset_state = Some []
   \<and> part0_applyFiltersAndRender [dp_record] unset_state = Some []
   \<and> selectedTags unset_state = [''dp'', ''math'']"
proof -
  have u: "selectedRating unset_state = None"
    by (simp add: unset_state_def)
  have t: "selectedTags unset_state = [''dp'', ''math'']"
    by (simp add: unset_state_def or_state_def)
  show ?thesis
    using no_rating_no_rows [OF u, of "[dp_record]"] u t by simp
qed

text \<open>
  Claim C5. For a catalog record that passes the rating filter, with a non-empty tag
  selection: under \<open>OR\<close> the record is kept exactly when at least one selected tag is
  among its tags, under \<open>AND\<close> exactly when every selected tag is. With the tags
  \<open>dp\<close> and \<open>math\<close> selected and a record tagged \<open>dp\<close> only, the record is kept
  exactly under \<open>OR\<close>. Both files compute the same rows.
\<close>

theorem tag_logic_or_and:
  assumes "p \<in> set allProblems" and "passes_rating_filter state p"
    and "selectedTags state \<noteq> []"
  shows "\<exists>filtered.
           script_applyFiltersAndRender allProblems state = Some filtered
         \<and> part0_applyFiltersAndRender allProblems state = Some filtered
         \<and> (p \<in> set filtered \<longleftrightarrow>
              (case tagLogic state of
                 OR \<Rightarrow> \<exists>tag\<in>set (selectedTags state). tag \<in> set (tags p)
               | AND \<Rightarrow> \<forall>tag\<in>set (selectedTags state). tag \<in> set (tags p)))
         \<and> (set (selectedTags state) = {''dp'', ''math''} \<and> set (tags p) = {''dp''} \<longrightarrow>
              (p \<in> set filtered \<longleftrightarrow> tagLogic state = OR))"
proof -
  have t: "truthy (selectedRating state)" and r: "rating p = selectedRating state"
    using assms(2) by (simp_all add: passes_rating_filter_def)
  have ne: "allProblems \<noteq> []"
    using assms(1) by auto
  note sel = applyFiltersAndRender_selected [OF t ne]
  show ?thesis
    unfolding applyFiltersAndRender_agree sel
    using assms(1,3) r by (cases "tagLogic state") auto
qed

theorem tag_logic_or_and_witness:
  "dp_record \<in> set [dp_record] \<and> passes_rating_filter or_state dp_record
   \<and> passes_rating_filter and_state dp_record
   \<and> selectedTags or_state \<noteq> [] \<and> selectedTags and_state \<noteq> []
   \<and> script_applyFiltersAndRender [dp_record] or_state = Some [dp_record]
   \<and> script_applyFiltersAndRender [dp_record] and_state = Some []
   \<and> part0_applyFiltersAndRender [dp_record] or_state = Some [dp_record]
   \<and> part0_applyFiltersAndRender [dp_record] and_state = Some []"
proof -
  have m: "dp_record \<in> set [dp_record]"
    by simp
  have po: "passes_rating_filter or_state dp_record"
    by (simp add: passes_rating_filter_def or_state_def dp_record_def truthy_def)
  have pa: "passes_rating_filter and_state dp_record"
    by (simp add: passes_rating_filter_def and_state_def or_state_def dp_record_def truthy_def)
  have so: "selectedTags or_state \<noteq> []"
    by (simp add: or_state_def)
  have sa: "selectedTags and_state \<noteq> []"
    by (simp add: and_state_def or_state_def)
  have facts: "set (selectedTags or_state) = {''dp'', ''math''}"
      "set (selectedTags and_state) = {''dp'', ''math''}"
      "set (tags dp_record) = {''dp''}" "tagLogic or_state = OR" "tagLogic and_state = AND"
    by (auto simp add: and_state_def or_state_def dp_record_def)
  obtain fo where fo: "script_applyFiltersAndRender [dp_record] or_state = Some fo"
      "part0_applyFiltersAndRender [dp_record] or_state = Some fo"
      "dp_record \<in> set fo"
    using tag_logic_or_and [OF m po so] facts by auto
  obtain fa where fa: "script_applyFiltersAndRender [dp_record] and_state = Some fa"
      "part0_applyFiltersAndRender [dp_record] and_state = Some fa"
      "dp_record \<notin> set fa"
    using tag_logic_or_and [OF m pa sa] facts by auto
  have "script_applyFiltersAndRender [dp_record] or_state = Some [dp_record]"
    by (simp add: script_applyFiltersAndRender_def or_state_def dp_record_def truthy_def)
  moreover have "script_applyFiltersAndRender [dp_record] and_state = Some []"
    by (simp add: script_applyFiltersAndRender_def and_state_def or_state_def dp_record_def
        truthy_def)
  ultimately show ?thesis
    using m po pa so sa fo fa by simp
qed

lemma applyFiltersAndRender_is_filter:
  assumes "script_applyFiltersAndRender allProblems state = Some filtered"
  shows "\<exists>P. filtered = filter P allProblems"
proof (cases "truthy (selectedRating state)")
  case True
  have ne: "allProblems \<noteq> []"
    using assms by (auto simp add: script_applyFiltersAndRender_def)
  have "Some filtered = Some (filter (\<lambda>p. rating p = selectedRating state \<and>
                        (selectedTags state = [] \<or>
                         (if tagLogic state = OR
                          then \<exists>tag\<in>set (selectedTags state). tag \<in> set (tags p)
                          else \<forall>tag\<in>set (selectedTags state). tag \<in> set (tags p))))
             allProblems)"
    using assms applyFiltersAndRender_selected [OF True ne] by simp
  then show ?thesis by blast
next
  case False
  then have "filtered = filter (\<lambda>p. False) allProblems"
    using assms by (simp add: applyFiltersAndRender_unset split: if_splits)
  then show ?thesis by blast
qed

text \<open>
  Claim C8. For every catalog and every filter state, the rows handed to the renderer
  are a subsequence of the catalog, in catalog order: they are the catalog filtered by
  a predicate on the record, never re-sorted. Both files behave so.
\<close>

theorem filter_preserves_order:
  "subseq (rendered_rows (script_applyFiltersAndRender allProblems state)) allProblems
   \<and> subseq (rendered_rows (part0_applyFiltersAndRender allProblems state)) allProblems
   \<and> (script_applyFiltersAndRender allProblems state = Some filtered \<longrightarrow>
        subseq filtered allProblems \<and>
        filtered = filter (\<lambda>p. p \<in> set filtered) allProblems)
   \<and> (part0_applyFiltersAndRender allProblems state = Some filtered \<longrightarrow>
        subseq filtered allProblems \<and>
        filtered = filter (\<lambda>p. p \<in> set filtered) allProblems)"
proof -
  have stable: "filter P xs = filter (\<lambda>p. p \<in> set (filter P xs)) xs"
    for P and xs :: "ladder_problem list"
    by (rule filter_cong) auto
  have some: "subseq out allProblems \<and> out = filter (\<lambda>p. p \<in> set out) allProblems"
    if h: "script_applyFiltersAndRender allProblems state = Some out" for out
  proof -
    obtain P where "out = filter P allProblems"
      using applyFiltersAndRender_is_filter [OF h] by blast
    then show ?thesis
      using stable [of P allProblems] by simp
  qed
  have rows: "subseq (rendered_rows (script_applyFiltersAndRender allProblems state)) allProblems"
  proof (cases "script_applyFiltersAndRender allProblems state")
    case None
    then show ?thesis by (simp add: rendered_rows_def)
  next
    case (Some out)
    then show ?thesis
      using some [OF Some] by (simp add: rendered_rows_def)
  qed
  show ?thesis
    unfolding applyFiltersAndRender_agree using some rows by blast
qed

theorem filter_preserves_order_witness:
  "script_applyFiltersAndRender [dp_record] or_state = Some [dp_record]
   \<and> subseq [dp_record] [dp_record]
   \<and> subseq (rendered_rows (part0_applyFiltersAndRender [dp_record] or_state)) [dp_record]"
proof -
  have "script_applyFiltersAndRender [dp_record] or_state = Some [dp_record]"
    by (simp add: script_applyFiltersAndRender_def or_state_def dp_record_def truthy_def)
  then show ?thesis
    using filter_preserves_order [of "[dp_record]" or_state "[dp_record]"] by simp
qed

text \<open>
  Claim C10. The two files agree: on every submission list their reconciliation folds
  build the same status map, and on every catalog and filter state their filters hand
  the same rows to the renderer.
\<close>

theorem duplicated_logic_agrees:
  "part0_fetchUserStatus submissions = script_fetchUserStatus submissions
   \<and> part0_applyFiltersAndRender allProblems state =
       script_applyFiltersAndRender allProblems state"
  by (simp add: fetchUserStatus_agree applyFiltersAndRender_agree)

theorem duplicated_logic_agrees_witness:
  "part0_fetchUserStatus wire_example = script_fetchUserStatus wire_example
   \<and> part0_applyFiltersAndRender [dp_record] and_state =
       script_applyFiltersAndRender [dp_record] and_state"
  by (rule duplicated_logic_agrees)


section \<open>Properties of the Analytics Aggregator\<close>

lemma solved_callback_keys:
  "set (map fst (solved_callback acc s)) =
     set (map fst acc) \<union> (if verdict s = ''OK'' then {problemId (problem s)} else {})"
  by (auto simp add: solved_callback_def Let_def)

lemma solved_callback_distinct:
  "distinct (map fst acc) \<Longrightarrow> distinct (map fst (solved_callback acc s))"
  by (auto simp add: solved_callback_def Let_def)

lemma solved_callback_map_of:
  "map_of (solved_callback acc s) pid =
     (case map_of acc pid of
        Some p \<Rightarrow> Some p
      | None \<Rightarrow> if verdict s = ''OK'' \<and> problemId (problem s) = pid
                then Some (problem s) else None)"
proof -
  have keys: "k \<notin> set (map fst acc) \<longleftrightarrow> map_of acc k = None" for k
    by (simp add: map_of_eq_None_iff)
  show ?thesis
    unfolding solved_callback_def Let_def keys
    by (simp add: map_add_def split: option.splits)
qed

lemma solved_fold_keys:
  "set (map fst (foldl solved_callback acc subs)) =
     set (map fst acc) \<union> {problemId (problem s) | s. s \<in> set subs \<and> verdict s = ''OK''}"
proof (induction subs arbitrary: acc)
  case Nil
  then show ?case by simp
next
  case (Cons s subs)
  show ?case
    unfolding foldl_Cons Cons.IH solved_callback_keys by auto
qed

lemma solved_fold_distinct:
  "distinct (map fst acc) \<Longrightarrow> distinct (map fst (foldl solved_callback acc subs))"
  by (induction subs arbitrary: acc) (simp_all add: solved_callback_distinct)

lemma solved_fold_map_of:
  "map_of (foldl solved_callback acc subs) pid =
     (case map_of acc pid of
        Some p \<Rightarrow> Some p
      | None \<Rightarrow> map_option problem
                 (find (\<lambda>s. verdict s = ''OK'' \<and> problemId (problem s) = pid) subs))"
proof (induction subs arbitrary: acc)
  case Nil
  then show ?case by (simp split: option.splits)
next
  case (Cons s subs)
  show ?case
    unfolding foldl_Cons Cons.IH solved_callback_map_of
    by (simp split: option.splits)
qed

lemma solvedProblems_empty_iff:
  "part0_solvedProblems subs = [] \<longleftrightarrow> (\<forall>s\<in>set subs. verdict s \<noteq> ''OK'')"
proof -
  have "part0_solvedProblems subs = [] \<longleftrightarrow> set (map fst (part0_solvedProblems subs)) = {}"
    by simp
  also have "\<dots> \<longleftrightarrow> (\<forall>s\<in>set subs. verdict s \<noteq> ''OK'')"
    unfolding part0_solvedProblems_def solved_fold_keys by auto
  finally show ?thesis .
qed

lemma tag_callback_apply:
  "tag_callback tc x t =
     (if x = t
      then (case tc t of
              Some (Number n) \<Rightarrow> Some (Number (n + 1))
            | Some (Text k) \<Rightarrow> Some (Text (k + 1))
            | None \<Rightarrow>
                if t = ''__proto__'' then None
                else if t \<in> set inherited_function_names then Some (Text 1)
                else Some (Number 1))
      else tc t)"
  by (cases "x = t") (auto simp add: tag_callback_def split: option.splits js_count.splits)

lemma tag_callback_own_count:
  assumes "tc t = own_count t n"
  shows "tag_callback tc x t = own_count t (if x = t then Suc n else n)"
  unfolding tag_callback_apply assms
  by (simp add: own_count_def)

lemma tag_fold:
  "tc t = own_count t n \<Longrightarrow>
   foldl tag_callback tc ts t = own_count t (n + count_list ts t)"
proof (induction ts arbitrary: tc n)
  case Nil
  then show ?case by simp
next
  case (Cons x ts)
  have "foldl tag_callback tc (x # ts) t = foldl tag_callback (tag_callback tc x) ts t"
    by simp
  also have "\<dots> = own_count t ((if x = t then Suc n else n) + count_list ts t)"
    using Cons.prems
    by (intro Cons.IH [of "tag_callback tc x" "if x = t then Suc n else n"]
        tag_callback_own_count [of tc t n x])
  also have "\<dots> = own_count t (n + count_list (x # ts) t)"
    by simp
  finally show ?case .
qed

lemma tagCounts_fold:
  "tc t = own_count t n \<Longrightarrow>
   foldl (\<lambda>tagCounts (pid, p). foldl tag_callback tagCounts (tags p)) tc S t =
     own_count t (n + (\<Sum>(pid, p)\<leftarrow>S. count_list (tags p) t))"
proof (induction S arbitrary: tc n)
  case Nil
  then show ?case by simp
next
  case (Cons e S)
  obtain pid p where e: "e = (pid, p)" by (cases e)
  let ?step = "\<lambda>tagCounts (pid, p). foldl tag_callback tagCounts (tags p)"
  have "foldl ?step tc (e # S) t = foldl ?step (foldl tag_callback tc (tags p)) S t"
    by (simp add: e)
  also have "\<dots> = own_count t ((n + count_list (tags p) t)
                       + (\<Sum>(pid, p)\<leftarrow>S. count_list (tags p) t))"
    using Cons.prems
    by (intro Cons.IH [of "foldl tag_callback tc (tags p)" "n + count_list (tags p) t"]
        tag_fold [of tc t n "tags p"])
  also have "\<dots> = own_count t (n + (\<Sum>(pid, p)\<leftarrow>e # S. count_list (tags p) t))"
    by (simp add: e add.assoc)
  finally show ?case .
qed

lemma part0_tagCounts_own_count:
  "part0_tagCounts S t = own_count t (\<Sum>(pid, p)\<leftarrow>S. count_list (tags p) t)"
  using tagCounts_fold [of Map.empty t 0 S]
  by (simp add: part0_tagCounts_def own_count_def)

lemma rating_callback_apply:
  "rating_callback rc p r =
     (if rating p = Some r \<and> r \<noteq> 0 then Some (or_zero (rc r) + 1) else rc r)"
  by (auto simp add: rating_callback_def truthy_def split: option.splits)

lemma ratingCounts_fold:
  "foldl (\<lambda>ratingCounts (pid, p). rating_callback ratingCounts p) rc S r =
     (if r = 0 \<or> length (filter (\<lambda>(pid, p). rating p = Some r) S) = 0 then rc r
      else Some (or_zero (rc r) + length (filter (\<lambda>(pid, p). rating p = Some r) S)))"
proof (induction S arbitrary: rc)
  case Nil
  then show ?case by simp
next
  case (Cons e S)
  obtain pid p where e: "e = (pid, p)" by (cases e)
  let ?step = "\<lambda>ratingCounts (pid, p). rating_callback ratingCounts p"
  let ?n = "length (filter (\<lambda>(pid, p). rating p = Some r) S)"
  have "foldl ?step rc (e # S) r = foldl ?step (rating_callback rc p) S r"
    by (simp add: e)
  also have "\<dots> = (if r = 0 \<or> ?n = 0 then rating_callback rc p r
                     else Some (or_zero (rating_callback rc p r) + ?n))"
    by (rule Cons.IH)
  also have "\<dots> =
      (if r = 0 \<or> length (filter (\<lambda>(pid, p). rating p = Some r) (e # S)) = 0 then rc r
       else Some (or_zero (rc r) + length (filter (\<lambda>(pid, p). rating p = Some r) (e # S))))"
    by (auto simp add: e rating_callback_apply or_zero_def)
  finally show ?case .
qed


text \<open>
  What the aggregator computes, for every submission list: the solved map has one
  entry per identity with an accepted submission, holding the problem of the first
  such submission in list order; when it is not empty the charts get the two
  counters; the tag counter holds, under a tag, the number of entries equal to the
  tag in the tag arrays of the solved problems, as a number for an ordinary label,
  as a string for a label naming an inherited function, and not at all for
  \<open>__proto__\<close> or a tag that does not occur; the rating counter holds, under a
  non-zero rating, the number of solved problems with that rating, and nothing under
  \<open>0\<close>.
\<close>

lemma generateAnalytics_counts:
  "distinct (map fst (part0_solvedProblems submissions))
   \<and> set (map fst (part0_solvedProblems submissions)) =
       {problemId (problem s) | s. s \<in> set submissions \<and> verdict s = ''OK''}
   \<and> map_of (part0_solvedProblems submissions) pid =
       map_option problem
         (find (\<lambda>s. verdict s = ''OK'' \<and> problemId (problem s) = pid) submissions)
   \<and> (part0_solvedProblems submissions \<noteq> [] \<longrightarrow>
        part0_generateAnalytics submissions =
          Charts (part0_tagCounts (part0_solvedProblems submissions))
                 (part0_ratingCounts (part0_solvedProblems submissions)))
   \<and> part0_tagCounts (part0_solvedProblems submissions) tag =
       (let n = (\<Sum>(pid, p)\<leftarrow>part0_solvedProblems submissions. count_list (tags p) tag)
        in if n = 0 \<or> tag = ''__proto__'' then None
           else if tag \<in> set inherited_function_names then Some (Text n)
           else Some (Number n))
   \<and> part0_ratingCounts (part0_solvedProblems submissions) r =
       (let n = length (filter (\<lambda>(pid, p). rating p = Some r)
                          (part0_solvedProblems submissions))
        in if r = 0 \<or> n = 0 then None else Some n)"
proof -
  let ?S = "part0_solvedProblems submissions"
  have d: "distinct (map fst ?S)"
    unfolding part0_solvedProblems_def by (rule solved_fold_distinct) simp
  have k: "set (map fst ?S) =
       {problemId (problem s) | s. s \<in> set submissions \<and> verdict s = ''OK''}"
    unfolding part0_solvedProblems_def solved_fold_keys by simp
  have m: "map_of ?S pid = map_option problem
         (find (\<lambda>s. verdict s = ''OK'' \<and> problemId (problem s) = pid) submissions)"
    unfolding part0_solvedProblems_def solved_fold_map_of by simp
  have g: "part0_generateAnalytics submissions =
          Charts (part0_tagCounts ?S) (part0_ratingCounts ?S)" if "?S \<noteq> []"
    using that by (simp add: part0_generateAnalytics_def Let_def)
  have t: "part0_tagCounts ?S tag =
       (let n = (\<Sum>(pid, p)\<leftarrow>?S. count_list (tags p) tag)
        in if n = 0 \<or> tag = ''__proto__'' then None
           else if tag \<in> set inherited_function_names then Some (Text n)
           else Some (Number n))"
    unfolding part0_tagCounts_own_count by (simp add: own_count_def Let_def)
  have rc: "part0_ratingCounts ?S r =
       (let n = length (filter (\<lambda>(pid, p). rating p = Some r) ?S)
        in if r = 0 \<or> n = 0 then None else Some n)"
    unfolding part0_ratingCounts_def ratingCounts_fold by (simp add: or_zero_def Let_def)
  show ?thesis
    using d k m g t rc by blast
qed

lemma solvedProblems_analytics_example:
  "part0_solvedProblems analytics_example = [(''1A'', P1), (''2B'', P2)]"
  by (simp add: part0_solvedProblems_def analytics_example_def solved_callback_def
      problemId_P1 problemId_P2)

lemma tagCounts_analytics_example:
  "part0_tagCounts (part0_solvedProblems analytics_example) ''math'' = Some (Number 2)
   \<and> part0_tagCounts (part0_solvedProblems analytics_example) ''dp'' = Some (Number 1)
   \<and> part0_tagCounts (part0_solvedProblems analytics_example) ''greedy'' = None
   \<and> part0_ratingCounts (part0_solvedProblems analytics_example) 1200 = Some 1
   \<and> part0_ratingCounts (part0_solvedProblems analytics_example) 2000 = Some 1"
  by (simp add: solvedProblems_analytics_example part0_tagCounts_own_count own_count_def
      inherited_function_names_def part0_ratingCounts_def rating_callback_def truthy_def
      or_zero_def P1_def P2_def)

lemma tagCounts_inherited_names:
  "part0_tagCounts [(''6C'', odd_tags)] ''constructor'' = Some (Text 2)
   \<and> part0_tagCounts [(''6C'', odd_tags)] ''__proto__'' = None
   \<and> part0_tagCounts [(''6C'', odd_tags)] ''math'' = Some (Number 1)"
  by (simp add: part0_tagCounts_own_count own_count_def inherited_function_names_def
      odd_tags_def)

text \<open>
  Claim C6, evaluated where the code departs from it. The claim has the rating
  distribution count the solved problems per distinct rating and skip only those
  without a rating. On the single accepted submission of a problem rated \<open>0\<close> the
  solved set holds that problem, which has a rating, and the charts are built, yet
  the rating counter has no bucket for \<open>0\<close>, because the guard tests the rating's
  truthiness. The merger, which tests the rating against \<open>undefined\<close>, keeps the same
  problem in the catalog.
\<close>

theorem rating_zero_has_no_bucket:
  "part0_solvedProblems zero_example = [(''5A'', zero_rated)]
   \<and> rating zero_rated = Some 0
   \<and> part0_ratingCounts [(''5A'', zero_rated)] 0 = None
   \<and> part0_generateAnalytics zero_example =
        Charts (part0_tagCounts [(''5A'', zero_rated)]) (part0_ratingCounts [(''5A'', zero_rated)])
   \<and> part0_fetchProblems [zero_rated] [\<lparr>cf_statistics.solvedCount = 7\<rparr>] [''5A''] =
        Inr [\<lparr>contestId = 5, index = ''A'', name = ''Rated zero'', rating = Some 0,
              tags = [''math''], solvedCount = 7\<rparr>]"
proof -
  have id: "problemId zero_rated = ''5A''"
    by (simp add: zero_rated_def problemId_def number_to_string_def nat_to_string.simps
        digit_char_def)
  have s: "part0_solvedProblems zero_example = [(''5A'', zero_rated)]"
    by (simp add: part0_solvedProblems_def zero_example_def solved_callback_def id)
  have r: "rating zero_rated = Some 0"
    by (simp add: zero_rated_def)
  have z: "part0_ratingCounts [(''5A'', zero_rated)] 0 = None"
    by (simp add: part0_ratingCounts_def rating_callback_def truthy_def r)
  have g: "part0_generateAnalytics zero_example =
        Charts (part0_tagCounts [(''5A'', zero_rated)]) (part0_ratingCounts [(''5A'', zero_rated)])"
    by (simp add: part0_generateAnalytics_def Let_def s)
  have f: "part0_fetchProblems [zero_rated] [\<lparr>cf_statistics.solvedCount = 7\<rparr>] [''5A''] =
        Inr [\<lparr>contestId = 5, index = ''A'', name = ''Rated zero'', rating = Some 0,
              tags = [''math''], solvedCount = 7\<rparr>]"
  proof -
    have "\<lparr>contestId = 5, index = ''A'', name = ''Rated zero'', rating = Some 0,
              tags = [''math''], solvedCount = 7\<rparr> = spread_with_solvedCount zero_rated 7"
      by (simp add: spread_with_solvedCount_record zero_rated_def)
    then show ?thesis
      by (simp add: part0_fetchProblems_def id r)
  qed
  show ?thesis
    using s r z g f by blast
qed

text \<open>
  Claim C7. When the deduplicated solved set is empty, which is the case exactly when
  no submission has verdict \<open>OK\<close> and in particular for the empty list, the aggregator
  shows the "no problems solved yet" message and produces no charts at all.
\<close>

theorem empty_solved_set_signals_no_data:
  assumes "part0_solvedProblems submissions = []"
  shows "part0_generateAnalytics submissions =
           NoDataMessage ''No problems solved yet. Solve some problems to see your stats!''
       \<and> part0_generateAnalytics submissions \<noteq> Charts tagCounts ratingCounts
       \<and> part0_solvedProblems [] = []
       \<and> (part0_solvedProblems submissions = [] \<longleftrightarrow>
            (\<forall>s\<in>set submissions. verdict s \<noteq> ''OK''))"
  using assms
  by (simp add: part0_generateAnalytics_def solvedProblems_empty_iff [symmetric]
      part0_solvedProblems_def)

theorem empty_solved_set_signals_no_data_witness:
  "part0_solvedProblems unsolved_example = []
   \<and> part0_generateAnalytics unsolved_example =
       NoDataMessage ''No problems solved yet. Solve some problems to see your stats!''
   \<and> part0_solvedProblems [] = []
   \<and> part0_generateAnalytics [] =
       NoDataMessage ''No problems solved yet. Solve some problems to see your stats!''"
proof -
  have u: "part0_solvedProblems unsolved_example = []"
    by (simp add: part0_solvedProblems_def unsolved_example_def solved_callback_def)
  have e: "part0_solvedProblems [] = []"
    by (simp add: part0_solvedProblems_def)
  show ?thesis
    using empty_solved_set_signals_no_data [OF u] empty_solved_set_signals_no_data [OF e] u e
    by simp
qed


end
